theory Spec2Isabelle
  imports Complex_Main
begin

section \<open>Document layout of a paginated viewer\<close>

text \<open>
  A shallow embedding of \<^verbatim>\<open>getDocumentLayout\<close> and the functions it calls.
  JavaScript numbers are modelled as exact reals: all values in this code are sums, maxima,
  doublings, floors and halvings of the inputs, and the model leaves NaN, the infinities
  and the rounding of IEEE doubles out. Array indices and zoom levels are naturals.
  Reading a property of \<^verbatim>\<open>undefined\<close> throws in JavaScript; the throw is the
  \<open>Inl\<close> branch of a sum, and the constructor of \<open>error\<close> records which read threw.
\<close>

subsection \<open>Data\<close>

text \<open>The entry \<^verbatim>\<open>page.d[zoomLevel]\<close>: the raw size of a page at one zoom level.\<close>

record PageData =
  w :: real
  h :: real

text \<open>
  A page: its table \<^verbatim>\<open>d\<close> of raw sizes by zoom level (a missing entry is
  \<^verbatim>\<open>undefined\<close>) and its \<^verbatim>\<open>paged\<close> attribute.
\<close>

record Page =
  d :: "nat \<rightharpoonup> PageData"
  page_paged :: bool

record Manifest =
  pages :: "Page list"
  paged :: bool

text \<open>
  The optional last argument of \<^verbatim>\<open>getPageDimensions\<close>; the property
  \<^verbatim>\<open>round\<close> may itself be missing from the object.
\<close>

record Options =
  opt_round :: "bool option"

record Dims =
  width :: real
  height :: real

record PageOffset =
  po_index :: nat
  po_top :: real
  po_left :: real

text \<open>A layout group is the page size extended with the offsets of its pages.\<close>

record Layout = Dims +
  pageOffsets :: "PageOffset list"

text \<open>A pending page of the book scan: the page size extended with the page's index.\<close>

record IndexedPage = Dims +
  page_index :: nat

record PagePadding =
  pp_top :: real
  pp_left :: real

record DocPadding =
  dp_top :: real
  dp_right :: real
  dp_bottom :: real
  dp_left :: real

record Padding =
  page :: PagePadding
  document :: DocPadding

record Config =
  inBookLayout :: bool
  manifest :: Manifest
  zoomLevel :: nat
  verticallyOriented :: bool
  padding :: Padding

record Region =
  region_top :: real
  region_bottom :: real
  region_left :: real
  region_right :: real

record PageGroup =
  group_index :: nat
  group_layout :: Layout
  group_region :: Region
  group_padding :: PagePadding

record DocumentLayout =
  dimensions :: Dims
  pageGroups :: "PageGroup list"

text \<open>
  Both errors are a \<^verbatim>\<open>TypeError\<close> in the source: \<open>InvalidZoomLevel\<close> is thrown by
  \<^verbatim>\<open>pageData.w\<close> when \<^verbatim>\<open>d[zoomLevel]\<close> is undefined, \<open>InvalidPageIndex\<close> by
  \<^verbatim>\<open>manifest.pages[pageIndex].d\<close> when the index is out of range.
\<close>

datatype error = InvalidZoomLevel | InvalidPageIndex

subsection \<open>Page dimensions\<close>

definition getPageDimensions :: "nat \<Rightarrow> Manifest \<Rightarrow> nat \<Rightarrow> Options option \<Rightarrow> error + Dims" where
  "getPageDimensions pageIndex m zoom options =
     (if pageIndex < length (pages m) then
        (case d (pages m ! pageIndex) zoom of
           None \<Rightarrow> Inl InvalidZoomLevel
         | Some pageData \<Rightarrow>
             (let width0 = of_int \<lfloor>w pageData\<rfloor> :: real;
                  height0 = of_int \<lfloor>h pageData\<rfloor> :: real;
                  rnd = (case options of
                           None \<Rightarrow> True
                         | Some opts \<Rightarrow> (case opt_round opts of None \<Rightarrow> False | Some b \<Rightarrow> b))
              in if rnd
                 then Inr \<lparr>width = of_int \<lfloor>width0\<rfloor>, height = of_int \<lfloor>height0\<rfloor>\<rparr>
                 else Inr \<lparr>width = width0, height = height0\<rparr>))
      else Inl InvalidPageIndex)"

subsection \<open>Grouping pages\<close>

text \<open>
  \<^verbatim>\<open>manifest.pages.map\<close> in \<^verbatim>\<open>getSinglesLayoutGroups\<close>: the callback runs on the pages
  in order, with the index counted up; the first throw ends the whole call.
\<close>

fun singlesFrom :: "Manifest \<Rightarrow> nat \<Rightarrow> nat \<Rightarrow> Page list \<Rightarrow> error + Layout list" where
  "singlesFrom m zoom i [] = Inr []"
| "singlesFrom m zoom i (p # ps) =
     (case getPageDimensions i m zoom None of
        Inl e \<Rightarrow> Inl e
      | Inr pageDims \<Rightarrow>
          (case singlesFrom m zoom (Suc i) ps of
             Inl e \<Rightarrow> Inl e
           | Inr gs \<Rightarrow>
               Inr (\<lparr>width = width pageDims, height = height pageDims,
                     pageOffsets = [\<lparr>po_index = i, po_top = 0, po_left = 0\<rparr>]\<rparr> # gs)))"

definition getSinglesLayoutGroups :: "Manifest \<Rightarrow> nat \<Rightarrow> error + Layout list" where
  "getSinglesLayoutGroups m zoom = singlesFrom m zoom 0 (pages m)"

definition getFacingPageGroup :: "IndexedPage \<Rightarrow> IndexedPage \<Rightarrow> bool \<Rightarrow> Layout" where
  "getFacingPageGroup leftPage rightPage vertical =
     (let height0 = max (height leftPage) (height rightPage) in
      if vertical then
        (let midWidth = max (width leftPage) (width rightPage) in
         \<lparr>width = midWidth * 2, height = height0,
          pageOffsets =
            [\<lparr>po_index = page_index leftPage, po_top = 0, po_left = midWidth - width leftPage\<rparr>,
             \<lparr>po_index = page_index rightPage, po_top = 0, po_left = midWidth\<rparr>]\<rparr>)
      else
        \<lparr>width = width leftPage + width rightPage, height = height0,
         pageOffsets =
           [\<lparr>po_index = page_index leftPage, po_top = 0, po_left = 0\<rparr>,
            \<lparr>po_index = page_index rightPage, po_top = 0, po_left = width leftPage\<rparr>]\<rparr>)"

text \<open>
  The \<^verbatim>\<open>forEach\<close> of \<^verbatim>\<open>getBookLayoutGroups\<close>: the state is the groups pushed so far and
  the pending left page (\<open>None\<close> for \<^verbatim>\<open>null\<close>).
\<close>

fun bookScan ::
  "Manifest \<Rightarrow> nat \<Rightarrow> bool \<Rightarrow> nat \<Rightarrow> Page list \<Rightarrow> Layout list \<Rightarrow> IndexedPage option
     \<Rightarrow> error + (Layout list \<times> IndexedPage option)" where
  "bookScan m zoom vertical i [] groups leftPage = Inr (groups, leftPage)"
| "bookScan m zoom vertical i (p # ps) groups leftPage =
     (if paged m \<and> \<not> page_paged p then bookScan m zoom vertical (Suc i) ps groups leftPage
      else
        (case getPageDimensions i m zoom (Some \<lparr>opt_round = Some False\<rparr>) of
           Inl e \<Rightarrow> Inl e
         | Inr pageDims \<Rightarrow>
             if vertical \<and> i = 0 then
               bookScan m zoom vertical (Suc i) ps
                 (groups @ [\<lparr>width = width pageDims * 2, height = height pageDims,
                             pageOffsets = [\<lparr>po_index = 0, po_top = 0, po_left = width pageDims\<rparr>]\<rparr>])
                 leftPage
             else
               (case leftPage of
                  None \<Rightarrow>
                    bookScan m zoom vertical (Suc i) ps groups
                      (Some \<lparr>width = width pageDims, height = height pageDims, page_index = i\<rparr>)
                | Some lp \<Rightarrow>
                    bookScan m zoom vertical (Suc i) ps
                      (groups @ [getFacingPageGroup lp
                         \<lparr>width = width pageDims, height = height pageDims, page_index = i\<rparr>
                         vertical])
                      None)))"

definition getBookLayoutGroups :: "Manifest \<Rightarrow> nat \<Rightarrow> bool \<Rightarrow> error + Layout list" where
  "getBookLayoutGroups m zoom vertical =
     (case bookScan m zoom vertical 0 (pages m) [] None of
        Inl e \<Rightarrow> Inl e
      | Inr (groups, leftPage) \<Rightarrow>
          (case leftPage of
             None \<Rightarrow> Inr groups
           | Some lp \<Rightarrow>
               Inr (groups @
                 [\<lparr>width = (if vertical then width lp * 2 else width lp), height = height lp,
                   pageOffsets = [\<lparr>po_index = page_index lp, po_top = 0, po_left = 0\<rparr>]\<rparr>])))"

subsection \<open>Placing the groups\<close>

definition secondaryPadding :: "Config \<Rightarrow> real" where
  "secondaryPadding config =
     (if verticallyOriented config
      then dp_left (document (padding config)) + dp_right (document (padding config))
      else dp_top (document (padding config)) + dp_bottom (document (padding config)))"

definition secondaryDim :: "Config \<Rightarrow> Layout \<Rightarrow> real" where
  "secondaryDim config layout = (if verticallyOriented config then width layout else height layout)"

definition getExtentAlongSecondaryAxis :: "Layout list \<Rightarrow> Config \<Rightarrow> real" where
  "getExtentAlongSecondaryAxis layouts config =
     secondaryPadding config
       + foldl (\<lambda>maxDim layout. max (secondaryDim config layout) maxDim) 0 layouts"

text \<open>The region that the callback of \<^verbatim>\<open>layouts.forEach\<close> gives a group at the cursor.\<close>

definition placeRegion :: "Config \<Rightarrow> real \<Rightarrow> real \<Rightarrow> Layout \<Rightarrow> Region" where
  "placeRegion config documentSecondaryExtent primaryDocPosition layout =
     (let top = (if verticallyOriented config then primaryDocPosition
                 else (documentSecondaryExtent - height layout) / 2);
          left = (if verticallyOriented config then (documentSecondaryExtent - width layout) / 2
                  else primaryDocPosition)
      in \<lparr>region_top = top,
          region_bottom = top + pp_top (page (padding config)) + height layout,
          region_left = left,
          region_right = left + pp_left (page (padding config)) + width layout\<rparr>)"

text \<open>
  The cursor after a group, \<^verbatim>\<open>config.verticallyOriented ? region.bottom : region.right\<close>,
  and the edge that the callback sets to the cursor (\<^verbatim>\<open>top\<close> or \<^verbatim>\<open>left\<close>).
\<close>

definition trailingEdge :: "Config \<Rightarrow> Region \<Rightarrow> real" where
  "trailingEdge config region =
     (if verticallyOriented config then region_bottom region else region_right region)"

definition leadingEdge :: "Config \<Rightarrow> Region \<Rightarrow> real" where
  "leadingEdge config region =
     (if verticallyOriented config then region_top region else region_left region)"

text \<open>
  The coordinate of a region on the secondary axis: the centred one of \<^verbatim>\<open>left\<close>
  and \<^verbatim>\<open>top\<close>.
\<close>

definition secondaryOffset :: "Config \<Rightarrow> Region \<Rightarrow> real" where
  "secondaryOffset config region =
     (if verticallyOriented config then region_left region else region_top region)"

text \<open>
  The loop \<^verbatim>\<open>layouts.forEach\<close> of \<^verbatim>\<open>getDocumentLayout\<close>: the state is the cursor
  \<^verbatim>\<open>primaryDocPosition\<close> and the page groups pushed so far.
\<close>

fun placeGroups ::
  "Config \<Rightarrow> real \<Rightarrow> nat \<Rightarrow> Layout list \<Rightarrow> real \<Rightarrow> PageGroup list \<Rightarrow> real \<times> PageGroup list" where
  "placeGroups config ext i [] primaryDocPosition groups = (primaryDocPosition, groups)"
| "placeGroups config ext i (layout # rest) primaryDocPosition groups =
     (let region = placeRegion config ext primaryDocPosition layout in
      placeGroups config ext (Suc i) rest
        (trailingEdge config region)
        (groups @ [\<lparr>group_index = i, group_layout = layout, group_region = region,
                    group_padding = page (padding config)\<rparr>]))"

text \<open>
  \<^verbatim>\<open>getDocumentLayout\<close> in two steps: the choice of the grouping, which may throw, and
  the rest of the function body, which cannot.
\<close>

definition getLayouts :: "Config \<Rightarrow> error + Layout list" where
  "getLayouts config =
     (if inBookLayout config
      then getBookLayoutGroups (manifest config) (zoomLevel config) (verticallyOriented config)
      else getSinglesLayoutGroups (manifest config) (zoomLevel config))"

definition composeLayout :: "Config \<Rightarrow> Layout list \<Rightarrow> DocumentLayout" where
  "composeLayout config layouts =
     (let documentSecondaryExtent = getExtentAlongSecondaryAxis layouts config;
          placed = placeGroups config documentSecondaryExtent 0 layouts 0 []
      in \<lparr>dimensions =
            (if verticallyOriented config
             then \<lparr>width = documentSecondaryExtent,
                   height = fst placed + pp_top (page (padding config))\<rparr>
             else \<lparr>width = fst placed + pp_left (page (padding config)),
                   height = documentSecondaryExtent\<rparr>),
          pageGroups = snd placed\<rparr>)"

definition getDocumentLayout :: "Config \<Rightarrow> error + DocumentLayout" where
  "getDocumentLayout config =
     (case getLayouts config of
        Inl e \<Rightarrow> Inl e
      | Inr layouts \<Rightarrow> Inr (composeLayout config layouts))"

subsection \<open>Reading the result\<close>

text \<open>
  The extent of the document on the primary and on the secondary axis, and the page
  padding that \<^verbatim>\<open>getDocumentLayout\<close> adds after the last group
  (\<^verbatim>\<open>pagePadding.top\<close> or \<^verbatim>\<open>pagePadding.left\<close>).
\<close>

definition primaryExtent :: "Config \<Rightarrow> Dims \<Rightarrow> real" where
  "primaryExtent config dims = (if verticallyOriented config then height dims else width dims)"

definition secondaryExtent :: "Config \<Rightarrow> Dims \<Rightarrow> real" where
  "secondaryExtent config dims = (if verticallyOriented config then width dims else height dims)"

definition primaryPagePadding :: "Config \<Rightarrow> real" where
  "primaryPagePadding config =
     (if verticallyOriented config then pp_top (page (padding config))
      else pp_left (page (padding config)))"

text \<open>
  The page indices of a list of layout groups, in the order of the groups and of the
  offsets in each group, and the index of the pending left page of the book scan.
\<close>

definition groupIndices :: "Layout list \<Rightarrow> nat list" where
  "groupIndices groups = map po_index (concat (map pageOffsets groups))"

definition pendingIndex :: "IndexedPage option \<Rightarrow> nat list" where
  "pendingIndex leftPage = (case leftPage of None \<Rightarrow> [] | Some lp \<Rightarrow> [page_index lp])"

subsection \<open>Example inputs\<close>

text \<open>A page of raw size 100.1 by 200.5 at zoom level 0, with no other zoom level.\<close>

definition fractionalPage :: Page where
  "fractionalPage = \<lparr>d = [0 \<mapsto> \<lparr>w = 1001 / 10, h = 401 / 2\<rparr>], page_paged = True\<rparr>"

definition onePage :: Manifest where
  "onePage = \<lparr>pages = [fractionalPage], paged = False\<rparr>"

text \<open>A page of raw size 100 by 200 at zoom level 0.\<close>

definition plainPage :: Page where
  "plainPage = \<lparr>d = [0 \<mapsto> \<lparr>w = 100, h = 200\<rparr>], page_paged = True\<rparr>"

text \<open>The same page, marked as not paged.\<close>

definition loosePage :: Page where
  "loosePage = \<lparr>d = [0 \<mapsto> \<lparr>w = 100, h = 200\<rparr>], page_paged = False\<rparr>"

definition twoPages :: Manifest where
  "twoPages = \<lparr>pages = [plainPage, plainPage], paged = False\<rparr>"

definition threePages :: Manifest where
  "threePages = \<lparr>pages = [plainPage, plainPage, plainPage], paged = False\<rparr>"

text \<open>A paged manifest whose second page of four is skipped in book mode.\<close>

definition pagedFour :: Manifest where
  "pagedFour = \<lparr>pages = [plainPage, loosePage, plainPage, plainPage], paged = True\<rparr>"

text \<open>Pages whose table has no zoom level at all, one paged and one not.\<close>

definition barePage :: Page where
  "barePage = \<lparr>d = Map.empty, page_paged = True\<rparr>"

definition bareLoosePage :: Page where
  "bareLoosePage = \<lparr>d = Map.empty, page_paged = False\<rparr>"

text \<open>Two pages with zoom level 0 followed by a page without it.\<close>

definition lateMissing :: Manifest where
  "lateMissing = \<lparr>pages = [plainPage, plainPage, barePage], paged = False\<rparr>"

text \<open>
  A paged manifest whose second page has no zoom level and is not paged, so that the book
  scan skips it.
\<close>

definition skippedMissing :: Manifest where
  "skippedMissing = \<lparr>pages = [plainPage, bareLoosePage, plainPage], paged = True\<rparr>"

definition noPages :: Manifest where
  "noPages = \<lparr>pages = [], paged = False\<rparr>"

definition examplePadding :: Padding where
  "examplePadding =
     \<lparr>page = \<lparr>pp_top = 5, pp_left = 3\<rparr>,
      document = \<lparr>dp_top = 7, dp_right = 11, dp_bottom = 13, dp_left = 17\<rparr>\<rparr>"

text \<open>A configuration at zoom level 0 with the padding above.\<close>

definition exampleConfig :: "bool \<Rightarrow> Manifest \<Rightarrow> bool \<Rightarrow> Config" where
  "exampleConfig book m vertical =
     \<lparr>inBookLayout = book, manifest = m, zoomLevel = 0, verticallyOriented = vertical,
      padding = examplePadding\<rparr>"

text \<open>
  The three pages of 100 by 200 in book mode, vertically oriented, with any padding.
\<close>

definition threePageBook :: "Padding \<Rightarrow> Config" where
  "threePageBook pad =
     \<lparr>inBookLayout = True, manifest = threePages, zoomLevel = 0, verticallyOriented = True,
      padding = pad\<rparr>"

section \<open>Properties\<close>

subsection \<open>Page dimensions\<close>

text \<open>
  C8. At a page index of the manifest and a zoom level present in the page's table,
  \<^verbatim>\<open>getPageDimensions\<close> returns the floors of the raw width and height whatever the
  options are: with \<^verbatim>\<open>round\<close> false, true, missing, or with no options at all. Both
  components are integers, and the flag has no effect.
\<close>

theorem getPageDimensions_round_irrelevant:
  assumes "pageIndex < length (pages m)"
    and "d (pages m ! pageIndex) zoom = Some pageData"
  shows "getPageDimensions pageIndex m zoom options =
           Inr \<lparr>width = of_int \<lfloor>w pageData\<rfloor>, height = of_int \<lfloor>h pageData\<rfloor>\<rparr>"
  using assms by (simp add: getPageDimensions_def Let_def)

theorem getPageDimensions_round_irrelevant_witness:
  "getPageDimensions 0 onePage 0 (Some \<lparr>opt_round = Some False\<rparr>) = Inr \<lparr>width = 100, height = 200\<rparr>
   \<and> getPageDimensions 0 onePage 0 (Some \<lparr>opt_round = Some True\<rparr>) = Inr \<lparr>width = 100, height = 200\<rparr>
   \<and> getPageDimensions 0 onePage 0 None = Inr \<lparr>width = 100, height = 200\<rparr>"
  using getPageDimensions_round_irrelevant [of 0 onePage 0 "\<lparr>w = 1001 / 10, h = 401 / 2\<rparr>"]
  by (simp add: onePage_def fractionalPage_def)

subsection \<open>Facing pages\<close>

text \<open>
  C7. The group of a left and a right page has the height of the taller page and both
  pages at top offset 0. Vertically oriented, its width is twice the larger page width,
  the left page sits at that maximum minus its own width and the right page at the
  maximum. Horizontally oriented, its width is the sum of the two widths, the left page
  sits at 0 and the right page at the left page's width.
\<close>

theorem getFacingPageGroup_geometry:
  "getFacingPageGroup leftPage rightPage True =
     \<lparr>width = 2 * max (width leftPage) (width rightPage),
      height = max (height leftPage) (height rightPage),
      pageOffsets =
        [\<lparr>po_index = page_index leftPage, po_top = 0,
          po_left = max (width leftPage) (width rightPage) - width leftPage\<rparr>,
         \<lparr>po_index = page_index rightPage, po_top = 0,
          po_left = max (width leftPage) (width rightPage)\<rparr>]\<rparr>
   \<and> getFacingPageGroup leftPage rightPage False =
     \<lparr>width = width leftPage + width rightPage,
      height = max (height leftPage) (height rightPage),
      pageOffsets =
        [\<lparr>po_index = page_index leftPage, po_top = 0, po_left = 0\<rparr>,
         \<lparr>po_index = page_index rightPage, po_top = 0, po_left = width leftPage\<rparr>]\<rparr>"
  by (simp add: getFacingPageGroup_def Let_def)

subsection \<open>The placing loop\<close>

text \<open>
  Facts about \<open>placeGroups\<close> for any cursor and any groups pushed before: the loop adds
  one group per layout, starts each region at the cursor, and centres it in the extent.
\<close>

lemma placeRegion_leading [simp]:
  "leadingEdge config (placeRegion config ext pos layout) = pos"
  by (simp add: leadingEdge_def placeRegion_def Let_def)

lemma placeGroups_length:
  "length (snd (placeGroups config ext i ls pos gs)) = length gs + length ls"
  by (induction ls arbitrary: i pos gs) (simp_all add: Let_def)

lemma placeGroups_chain:
  assumes "\<forall>k. Suc k < length gs \<longrightarrow>
             trailingEdge config (group_region (gs ! k)) = leadingEdge config (group_region (gs ! Suc k))"
    and "gs \<noteq> [] \<longrightarrow> trailingEdge config (group_region (last gs)) = pos"
  shows "\<forall>k. Suc k < length (snd (placeGroups config ext i ls pos gs)) \<longrightarrow>
           trailingEdge config (group_region (snd (placeGroups config ext i ls pos gs) ! k)) =
           leadingEdge config (group_region (snd (placeGroups config ext i ls pos gs) ! Suc k))"
  using assms
proof (induction ls arbitrary: i pos gs)
  case Nil
  then show ?case by simp
next
  case (Cons l ls)
  let ?r = "placeRegion config ext pos l"
  let ?g = "\<lparr>group_index = i, group_layout = l, group_region = ?r,
              group_padding = page (padding config)\<rparr>"
  have adj: "\<forall>k. Suc k < length (gs @ [?g]) \<longrightarrow>
      trailingEdge config (group_region ((gs @ [?g]) ! k)) =
      leadingEdge config (group_region ((gs @ [?g]) ! Suc k))"
  proof (intro allI impI)
    fix k assume k: "Suc k < length (gs @ [?g])"
    show "trailingEdge config (group_region ((gs @ [?g]) ! k)) =
      leadingEdge config (group_region ((gs @ [?g]) ! Suc k))"
    proof (cases "Suc k < length gs")
      case True
      then show ?thesis using Cons.prems(1) by (simp add: nth_append)
    next
      case False
      with k have kl: "Suc k = length gs" by simp
      then have ne: "gs \<noteq> []" by auto
      from kl have "k = length gs - 1" by simp
      then have "gs ! k = last gs" using ne by (simp add: last_conv_nth)
      then show ?thesis using Cons.prems(2) ne kl by (simp add: nth_append)
    qed
  qed
  have lst: "gs @ [?g] \<noteq> [] \<longrightarrow>
      trailingEdge config (group_region (last (gs @ [?g]))) = trailingEdge config ?r"
    by simp
  show ?case using Cons.IH [OF adj lst] by (simp add: Let_def)
qed

lemma placeGroups_cursor:
  assumes "gs \<noteq> [] \<longrightarrow> trailingEdge config (group_region (last gs)) = pos"
  shows "fst (placeGroups config ext i ls pos gs) =
           (if snd (placeGroups config ext i ls pos gs) = [] then pos
            else trailingEdge config (group_region (last (snd (placeGroups config ext i ls pos gs)))))"
  using assms
proof (induction ls arbitrary: i pos gs)
  case Nil
  then show ?case by simp
next
  case (Cons l ls)
  let ?r = "placeRegion config ext pos l"
  let ?g = "\<lparr>group_index = i, group_layout = l, group_region = ?r,
              group_padding = page (padding config)\<rparr>"
  have lst: "gs @ [?g] \<noteq> [] \<longrightarrow>
      trailingEdge config (group_region (last (gs @ [?g]))) = trailingEdge config ?r"
    by simp
  have ne: "snd (placeGroups config ext (Suc i) ls (trailingEdge config ?r) (gs @ [?g])) \<noteq> []"
    using placeGroups_length [of config ext "Suc i" ls "trailingEdge config ?r" "gs @ [?g]"]
    by (metis add_is_0 length_0_conv length_append_singleton nat.distinct(1))
  show ?case using Cons.IH [OF lst] ne by (simp add: Let_def)
qed

lemma placeRegion_centered:
  "2 * secondaryOffset config (placeRegion config ext pos layout) + secondaryDim config layout = ext"
  by (simp add: secondaryOffset_def placeRegion_def secondaryDim_def Let_def field_simps)

lemma placeGroups_centered:
  assumes "\<forall>g \<in> set gs.
             2 * secondaryOffset config (group_region g) + secondaryDim config (group_layout g) = ext"
  shows "\<forall>g \<in> set (snd (placeGroups config ext i ls pos gs)).
           2 * secondaryOffset config (group_region g) + secondaryDim config (group_layout g) = ext"
  using assms
proof (induction ls arbitrary: i pos gs)
  case Nil
  then show ?case by simp
next
  case (Cons l ls)
  let ?r = "placeRegion config ext pos l"
  let ?g = "\<lparr>group_index = i, group_layout = l, group_region = ?r,
              group_padding = page (padding config)\<rparr>"
  have "\<forall>g \<in> set (gs @ [?g]).
          2 * secondaryOffset config (group_region g) + secondaryDim config (group_layout g) = ext"
    using Cons.prems placeRegion_centered [of config ext pos l] by auto
  from Cons.IH [OF this] show ?case by (simp add: Let_def)
qed

lemma getDocumentLayout_Inr:
  "getDocumentLayout config = Inr r \<Longrightarrow>
     \<exists>layouts. getLayouts config = Inr layouts \<and> r = composeLayout config layouts"
  by (auto simp: getDocumentLayout_def split: sum.splits)

subsection \<open>Evaluating the examples\<close>

lemmas model_defs =
  getDocumentLayout_def getLayouts_def composeLayout_def getBookLayoutGroups_def
  getSinglesLayoutGroups_def getFacingPageGroup_def getPageDimensions_def
  getExtentAlongSecondaryAxis_def secondaryPadding_def secondaryDim_def placeRegion_def
  trailingEdge_def Let_def

lemma layout_single_example:
  "getDocumentLayout (exampleConfig False onePage True) =
     Inr \<lparr>dimensions = \<lparr>width = 128, height = 210\<rparr>,
        pageGroups =
          [\<lparr>group_index = 0,
              group_layout =
                \<lparr>width = 100, height = 200,
                   pageOffsets = [\<lparr>po_index = 0, po_top = 0, po_left = 0\<rparr>]\<rparr>,
              group_region =
                \<lparr>region_top = 0, region_bottom = 205, region_left = 14,
                   region_right = 117\<rparr>,
              group_padding = \<lparr>pp_top = 5, pp_left = 3\<rparr>\<rparr>]\<rparr>"
  by (simp add: model_defs exampleConfig_def examplePadding_def onePage_def fractionalPage_def)

lemma layout_three_example:
  "getDocumentLayout (exampleConfig True threePages True) =
  Inr \<lparr>dimensions = \<lparr>width = 228, height = 415\<rparr>,
        pageGroups =
          [\<lparr>group_index = 0,
              group_layout =
                \<lparr>width = 200, height = 200,
                   pageOffsets =
                     [\<lparr>po_index = 0, po_top = 0, po_left = 100\<rparr>]\<rparr>,
              group_region =
                \<lparr>region_top = 0, region_bottom = 205, region_left = 14,
                   region_right = 217\<rparr>,
              group_padding = \<lparr>pp_top = 5, pp_left = 3\<rparr>\<rparr>,
           \<lparr>group_index = 1,
              group_layout =
                \<lparr>width = 200, height = 200,
                   pageOffsets =
                     [\<lparr>po_index = 1, po_top = 0, po_left = 0\<rparr>,
                      \<lparr>po_index = 2, po_top = 0, po_left = 100\<rparr>]\<rparr>,
              group_region =
                \<lparr>region_top = 205, region_bottom = 410, region_left = 14,
                   region_right = 217\<rparr>,
              group_padding = \<lparr>pp_top = 5, pp_left = 3\<rparr>\<rparr>]\<rparr>"
  by (simp add: model_defs exampleConfig_def examplePadding_def threePages_def plainPage_def)

subsection \<open>Regions along the primary axis\<close>

text \<open>
  C5. In every layout that \<^verbatim>\<open>getDocumentLayout\<close> returns, for every two adjacent page
  groups the trailing edge of the first region (bottom when vertically oriented, right
  otherwise) equals the leading edge of the next region (top, respectively left).
\<close>

theorem regions_adjacent:
  assumes "getDocumentLayout config = Inr r"
    and "Suc i < length (pageGroups r)"
  shows "trailingEdge config (group_region (pageGroups r ! i)) =
         leadingEdge config (group_region (pageGroups r ! Suc i))"
proof -
  from assms(1) obtain layouts where r: "r = composeLayout config layouts"
    using getDocumentLayout_Inr by blast
  have "\<forall>k. Suc k < length (snd (placeGroups config (getExtentAlongSecondaryAxis layouts config) 0 layouts 0 [])) \<longrightarrow>
           trailingEdge config (group_region (snd (placeGroups config (getExtentAlongSecondaryAxis layouts config) 0 layouts 0 []) ! k)) =
           leadingEdge config (group_region (snd (placeGroups config (getExtentAlongSecondaryAxis layouts config) 0 layouts 0 []) ! Suc k))"
    by (rule placeGroups_chain) simp_all
  then show ?thesis using assms(2) by (simp add: r composeLayout_def Let_def)
qed

theorem regions_adjacent_witness:
  "Suc 0 < length (pageGroups (projr (getDocumentLayout (exampleConfig True threePages True))))
   \<and> region_bottom (group_region (pageGroups (projr (getDocumentLayout (exampleConfig True threePages True))) ! 0)) = 205
   \<and> region_top (group_region (pageGroups (projr (getDocumentLayout (exampleConfig True threePages True))) ! Suc 0)) = 205"
  using regions_adjacent [OF layout_three_example, of 0]
  unfolding layout_three_example
  by (simp add: trailingEdge_def leadingEdge_def exampleConfig_def)

text \<open>
  C1, as the code has it. The extent of the document on the primary axis is the trailing
  edge of the last group (0 when there is no group) plus the page padding on that axis,
  \<^verbatim>\<open>padding.page.top\<close> when vertically oriented and \<^verbatim>\<open>padding.page.left\<close>
  otherwise; the extent on the secondary axis is the value of
  \<^verbatim>\<open>getExtentAlongSecondaryAxis\<close> on the layout groups. The document padding on the
  primary axis is not part of the primary extent.
\<close>

theorem document_extent:
  assumes "getDocumentLayout config = Inr r"
  shows "\<exists>layouts. getLayouts config = Inr layouts
           \<and> primaryExtent config (dimensions r) =
               (if pageGroups r = [] then 0
                else trailingEdge config (group_region (last (pageGroups r))))
               + primaryPagePadding config
           \<and> secondaryExtent config (dimensions r) = getExtentAlongSecondaryAxis layouts config"
proof -
  from assms obtain layouts where l: "getLayouts config = Inr layouts"
    and r: "r = composeLayout config layouts"
    using getDocumentLayout_Inr by blast
  let ?ext = "getExtentAlongSecondaryAxis layouts config"
  let ?placed = "placeGroups config ?ext 0 layouts 0 []"
  have cur: "fst ?placed =
      (if snd ?placed = [] then 0 else trailingEdge config (group_region (last (snd ?placed))))"
    by (rule placeGroups_cursor) simp
  have pg: "pageGroups r = snd ?placed"
    by (simp add: r composeLayout_def Let_def)
  have "primaryExtent config (dimensions r) = fst ?placed + primaryPagePadding config"
    by (simp add: r composeLayout_def primaryExtent_def primaryPagePadding_def Let_def)
  then have "primaryExtent config (dimensions r) =
      (if pageGroups r = [] then 0
       else trailingEdge config (group_region (last (pageGroups r)))) + primaryPagePadding config"
    using cur pg by simp
  moreover have "secondaryExtent config (dimensions r) = ?ext"
    by (simp add: r composeLayout_def secondaryExtent_def Let_def)
  ultimately show ?thesis using l by blast
qed

theorem document_extent_witness:
  "height (dimensions (projr (getDocumentLayout (exampleConfig True threePages True)))) =
     region_bottom (group_region (last (pageGroups (projr (getDocumentLayout (exampleConfig True threePages True))))))
     + pp_top (page (padding (exampleConfig True threePages True)))
   \<and> width (dimensions (projr (getDocumentLayout (exampleConfig True threePages True)))) = 228"
  using document_extent [OF layout_three_example]
  unfolding layout_three_example
  by (simp add: exampleConfig_def examplePadding_def)

text \<open>
  C1 as stated fails: for one page of 100 by 200, vertically oriented, with page padding
  5 and document padding 7 at the top, the height is 210, and the last group's bottom
  plus the document's top padding is 212.
\<close>

theorem document_padding_extent_counterexample:
  "pages (manifest (exampleConfig False onePage True)) \<noteq> []
   \<and> height (dimensions (projr (getDocumentLayout (exampleConfig False onePage True)))) = 210
   \<and> region_bottom (group_region (last (pageGroups (projr (getDocumentLayout (exampleConfig False onePage True))))))
       + dp_top (document (padding (exampleConfig False onePage True))) = 212
   \<and> primaryExtent (exampleConfig False onePage True)
         (dimensions (projr (getDocumentLayout (exampleConfig False onePage True))))
       \<noteq> trailingEdge (exampleConfig False onePage True)
           (group_region (last (pageGroups (projr (getDocumentLayout (exampleConfig False onePage True))))))
         + dp_top (document (padding (exampleConfig False onePage True)))"
  unfolding layout_single_example
  by (simp add: primaryExtent_def trailingEdge_def exampleConfig_def examplePadding_def onePage_def)

subsection \<open>Centring on the secondary axis\<close>

text \<open>
  C6, as the code has it. For every group of a returned layout, twice the offset on the
  secondary axis plus the group's size on that axis equals the secondary extent of the
  document, the document padding on that axis included.
\<close>

theorem groups_centered_in_extent:
  assumes "getDocumentLayout config = Inr r"
    and "g \<in> set (pageGroups r)"
  shows "2 * secondaryOffset config (group_region g) + secondaryDim config (group_layout g) =
           secondaryExtent config (dimensions r)"
proof -
  from assms(1) obtain layouts where r: "r = composeLayout config layouts"
    using getDocumentLayout_Inr by blast
  let ?ext = "getExtentAlongSecondaryAxis layouts config"
  have "\<forall>g \<in> set (snd (placeGroups config ?ext 0 layouts 0 [])).
          2 * secondaryOffset config (group_region g) + secondaryDim config (group_layout g) = ?ext"
    by (rule placeGroups_centered) simp
  moreover have "secondaryExtent config (dimensions r) = ?ext"
    by (simp add: r composeLayout_def secondaryExtent_def Let_def)
  moreover have "g \<in> set (snd (placeGroups config ?ext 0 layouts 0 []))"
    using assms(2) by (simp add: r composeLayout_def Let_def)
  ultimately show ?thesis by simp
qed

theorem groups_centered_in_extent_witness:
  "hd (pageGroups (projr (getDocumentLayout (exampleConfig True threePages True))))
     \<in> set (pageGroups (projr (getDocumentLayout (exampleConfig True threePages True))))
   \<and> 2 * region_left (group_region (hd (pageGroups (projr (getDocumentLayout (exampleConfig True threePages True))))))
       + width (group_layout (hd (pageGroups (projr (getDocumentLayout (exampleConfig True threePages True))))))
     = width (dimensions (projr (getDocumentLayout (exampleConfig True threePages True))))"
  using groups_centered_in_extent [OF layout_three_example,
    of "hd (pageGroups (projr (getDocumentLayout (exampleConfig True threePages True))))"]
  unfolding layout_three_example
  by (simp add: secondaryOffset_def secondaryDim_def secondaryExtent_def exampleConfig_def)

text \<open>
  C6 as stated fails: for one page of width 100 with document padding 17 on the left and
  11 on the right, twice the left coordinate plus the width is 128, and the secondary
  extent minus the secondary padding is 100.
\<close>

theorem centering_minus_padding_counterexample:
  "2 * region_left (group_region (hd (pageGroups (projr (getDocumentLayout (exampleConfig False onePage True))))))
       + width (group_layout (hd (pageGroups (projr (getDocumentLayout (exampleConfig False onePage True))))))
     = 128
   \<and> getExtentAlongSecondaryAxis
         (map group_layout (pageGroups (projr (getDocumentLayout (exampleConfig False onePage True)))))
         (exampleConfig False onePage True)
       - secondaryPadding (exampleConfig False onePage True) = 100
   \<and> \<not> \<bar>2 * secondaryOffset (exampleConfig False onePage True)
               (group_region (hd (pageGroups (projr (getDocumentLayout (exampleConfig False onePage True))))))
           + secondaryDim (exampleConfig False onePage True)
               (group_layout (hd (pageGroups (projr (getDocumentLayout (exampleConfig False onePage True))))))
           - (secondaryExtent (exampleConfig False onePage True)
                (dimensions (projr (getDocumentLayout (exampleConfig False onePage True))))
              - secondaryPadding (exampleConfig False onePage True))\<bar> < 1"
  unfolding layout_single_example
  by (simp add: model_defs secondaryOffset_def secondaryExtent_def exampleConfig_def
      examplePadding_def onePage_def fractionalPage_def)

subsection \<open>The empty manifest\<close>

text \<open>
  C9. On a manifest without pages \<^verbatim>\<open>getDocumentLayout\<close> returns a layout, in both
  modes: there are no page groups, and the dimensions are the page padding on the primary
  axis and the sum of the two document paddings on the secondary axis.
\<close>

theorem empty_manifest_layout:
  assumes "pages (manifest config) = []"
  shows "getDocumentLayout config =
           Inr \<lparr>dimensions =
                  (if verticallyOriented config
                   then \<lparr>width = dp_left (document (padding config)) + dp_right (document (padding config)),
                         height = pp_top (page (padding config))\<rparr>
                   else \<lparr>width = pp_left (page (padding config)),
                         height = dp_top (document (padding config)) + dp_bottom (document (padding config))\<rparr>),
                pageGroups = []\<rparr>"
  using assms by (simp add: model_defs)

theorem empty_manifest_layout_witness:
  "pages (manifest (exampleConfig True noPages False)) = []
   \<and> getDocumentLayout (exampleConfig True noPages False) =
       Inr \<lparr>dimensions = \<lparr>width = 3, height = 20\<rparr>, pageGroups = []\<rparr>
   \<and> getDocumentLayout (exampleConfig False noPages True) =
       Inr \<lparr>dimensions = \<lparr>width = 28, height = 5\<rparr>, pageGroups = []\<rparr>"
  using empty_manifest_layout [of "exampleConfig True noPages False"]
    empty_manifest_layout [of "exampleConfig False noPages True"]
  by (simp add: exampleConfig_def examplePadding_def noPages_def)

subsection \<open>A missing zoom level\<close>

text \<open>
  The scans call \<open>getPageDimensions\<close> only at indices of the manifest, where its result is
  decided by the page's table alone.
\<close>

lemma getPageDimensions_in_range:
  "i < length (pages m) \<Longrightarrow>
     getPageDimensions i m zoom options =
       (case d (pages m ! i) zoom of
          None \<Rightarrow> Inl InvalidZoomLevel
        | Some pageData \<Rightarrow> Inr \<lparr>width = of_int \<lfloor>w pageData\<rfloor>, height = of_int \<lfloor>h pageData\<rfloor>\<rparr>)"
  by (simp add: getPageDimensions_def Let_def split: option.splits)

lemma drop_eq_Cons:
  assumes "drop i xs = p # ps"
  shows "i < length xs" and "xs ! i = p" and "drop (Suc i) xs = ps"
proof -
  show lt: "i < length xs" using assms by (cases "i < length xs") auto
  from lt have "drop i xs = xs ! i # drop (Suc i) xs" by (simp add: Cons_nth_drop_Suc)
  with assms show "xs ! i = p" and "drop (Suc i) xs = ps" by simp_all
qed

lemma singlesFrom_missing:
  assumes "drop i (pages m) = ps" and "\<exists>p \<in> set ps. d p zoom = None"
  shows "singlesFrom m zoom i ps = Inl InvalidZoomLevel"
  using assms
proof (induction ps arbitrary: i)
  case Nil
  then show ?case by simp
next
  case (Cons p ps)
  note dr = drop_eq_Cons [OF Cons.prems(1)]
  have gp: "getPageDimensions i m zoom None =
      (case d p zoom of None \<Rightarrow> Inl InvalidZoomLevel
       | Some pageData \<Rightarrow> Inr \<lparr>width = of_int \<lfloor>w pageData\<rfloor>, height = of_int \<lfloor>h pageData\<rfloor>\<rparr>)"
    using getPageDimensions_in_range [OF dr(1), of zoom None] dr(2) by simp
  show ?case
  proof (cases "d p zoom")
    case None
    then show ?thesis by (simp add: gp)
  next
    case (Some pageData)
    with Cons.prems(2) have "\<exists>q \<in> set ps. d q zoom = None" by auto
    from Cons.IH [OF dr(3) this] show ?thesis by (simp add: gp Some)
  qed
qed

lemma bookScan_missing:
  assumes "drop i (pages m) = ps"
    and "\<exists>p \<in> set ps. \<not> (paged m \<and> \<not> page_paged p) \<and> d p zoom = None"
  shows "bookScan m zoom vertical i ps groups leftPage = Inl InvalidZoomLevel"
  using assms
proof (induction ps arbitrary: i groups leftPage)
  case Nil
  then show ?case by simp
next
  case (Cons p ps)
  note dr = drop_eq_Cons [OF Cons.prems(1)]
  have gp: "getPageDimensions i m zoom (Some \<lparr>opt_round = Some False\<rparr>) =
      (case d p zoom of None \<Rightarrow> Inl InvalidZoomLevel
       | Some pageData \<Rightarrow> Inr \<lparr>width = of_int \<lfloor>w pageData\<rfloor>, height = of_int \<lfloor>h pageData\<rfloor>\<rparr>)"
    using getPageDimensions_in_range [OF dr(1), of zoom] dr(2) by simp
  show ?case
  proof (cases "\<not> (paged m \<and> \<not> page_paged p) \<and> d p zoom = None")
    case True
    then show ?thesis by (auto simp add: gp)
  next
    case False
    with Cons.prems(2)
    have "\<exists>q \<in> set ps. \<not> (paged m \<and> \<not> page_paged q) \<and> d q zoom = None" by auto
    note ih = Cons.IH [OF dr(3) this]
    show ?thesis
    proof (cases "paged m \<and> \<not> page_paged p")
      case True
      then show ?thesis using ih by simp
    next
      case np: False
      with False obtain pageData where "d p zoom = Some pageData" by auto
      then show ?thesis using np ih by (auto simp add: gp split: option.splits)
    qed
  qed
qed

text \<open>
  C2, as the code has it. If the zoom level is absent from the table of a page of the
  manifest, then \<^verbatim>\<open>getPageDimensions\<close> fails on that page with \<open>InvalidZoomLevel\<close>
  for every options value; and \<^verbatim>\<open>getDocumentLayout\<close> fails with the same error,
  returning no layout, unless the book grouping skips that page as a page not paged in a
  paged manifest. In single-page mode no page is skipped.
\<close>

theorem missing_zoom_level_fails:
  assumes "i < length (pages (manifest config))"
    and "d (pages (manifest config) ! i) (zoomLevel config) = None"
  shows "getPageDimensions i (manifest config) (zoomLevel config) options = Inl InvalidZoomLevel
         \<and> (\<not> (inBookLayout config \<and> paged (manifest config)
                 \<and> \<not> page_paged (pages (manifest config) ! i))
              \<longrightarrow> getDocumentLayout config = Inl InvalidZoomLevel)"
proof -
  let ?m = "manifest config"
  let ?p = "pages ?m ! i"
  have p: "?p \<in> set (pages ?m)" using assms(1) by simp
  have one: "getPageDimensions i ?m (zoomLevel config) options = Inl InvalidZoomLevel"
    using getPageDimensions_in_range [OF assms(1), of "zoomLevel config" options] assms(2) by simp
  have "getDocumentLayout config = Inl InvalidZoomLevel"
    if resolved: "\<not> (inBookLayout config \<and> paged ?m \<and> \<not> page_paged ?p)"
  proof -
    have "getLayouts config = Inl InvalidZoomLevel"
    proof (cases "inBookLayout config")
      case True
      with resolved have "\<not> (paged ?m \<and> \<not> page_paged ?p)" by simp
      with p assms(2)
      have "\<exists>q \<in> set (pages ?m). \<not> (paged ?m \<and> \<not> page_paged q) \<and> d q (zoomLevel config) = None"
        by blast
      then have "bookScan ?m (zoomLevel config) (verticallyOriented config) 0 (pages ?m) [] None
          = Inl InvalidZoomLevel"
        by (intro bookScan_missing) simp_all
      then show ?thesis using True by (simp add: getLayouts_def getBookLayoutGroups_def)
    next
      case False
      from p assms(2) have "\<exists>q \<in> set (pages ?m). d q (zoomLevel config) = None" by blast
      then have "singlesFrom ?m (zoomLevel config) 0 (pages ?m) = Inl InvalidZoomLevel"
        by (intro singlesFrom_missing) simp_all
      then show ?thesis using False by (simp add: getLayouts_def getSinglesLayoutGroups_def)
    qed
    then show ?thesis by (simp add: getDocumentLayout_def)
  qed
  with one show ?thesis by blast
qed

theorem missing_zoom_level_fails_witness:
  "2 < length (pages (manifest (exampleConfig True lateMissing True)))
   \<and> d (pages (manifest (exampleConfig True lateMissing True)) ! 2)
         (zoomLevel (exampleConfig True lateMissing True)) = None
   \<and> d (pages lateMissing ! 0) 0 \<noteq> None \<and> d (pages lateMissing ! 1) 0 \<noteq> None
   \<and> \<not> paged lateMissing
   \<and> getPageDimensions 2 lateMissing 0 None = Inl InvalidZoomLevel
   \<and> getPageDimensions 2 lateMissing 0 (Some \<lparr>opt_round = Some False\<rparr>) = Inl InvalidZoomLevel
   \<and> getDocumentLayout (exampleConfig True lateMissing True) = Inl InvalidZoomLevel
   \<and> getDocumentLayout (exampleConfig True lateMissing False) = Inl InvalidZoomLevel
   \<and> getDocumentLayout (exampleConfig False lateMissing True) = Inl InvalidZoomLevel"
  using missing_zoom_level_fails [of 2 "exampleConfig True lateMissing True" None]
    missing_zoom_level_fails [of 2 "exampleConfig True lateMissing True"
      "Some \<lparr>opt_round = Some False\<rparr>"]
    missing_zoom_level_fails [of 2 "exampleConfig True lateMissing False" None]
    missing_zoom_level_fails [of 2 "exampleConfig False lateMissing True" None]
  by (simp add: exampleConfig_def lateMissing_def plainPage_def barePage_def)

text \<open>
  C2 as stated fails: in book mode on a paged manifest, a page that is not paged is never
  resolved. With such a page without zoom level 0 between two pages of 100 by 200,
  \<^verbatim>\<open>getPageDimensions\<close> fails on the page, and \<^verbatim>\<open>getDocumentLayout\<close> still returns a
  layout, of one group holding pages 0 and 2.
\<close>

theorem skipped_page_no_failure_counterexample:
  "1 < length (pages (manifest (exampleConfig True skippedMissing False)))
   \<and> d (pages (manifest (exampleConfig True skippedMissing False)) ! 1)
         (zoomLevel (exampleConfig True skippedMissing False)) = None
   \<and> getPageDimensions 1 skippedMissing 0 None = Inl InvalidZoomLevel
   \<and> getDocumentLayout (exampleConfig True skippedMissing False) \<noteq> Inl InvalidZoomLevel
   \<and> getDocumentLayout (exampleConfig True skippedMissing False) =
       Inr \<lparr>dimensions = \<lparr>width = 206, height = 220\<rparr>,
            pageGroups =
              [\<lparr>group_index = 0,
                group_layout =
                  \<lparr>width = 200, height = 200,
                   pageOffsets =
                     [\<lparr>po_index = 0, po_top = 0, po_left = 0\<rparr>,
                      \<lparr>po_index = 2, po_top = 0, po_left = 100\<rparr>]\<rparr>,
                group_region =
                  \<lparr>region_top = 10, region_bottom = 215, region_left = 0, region_right = 203\<rparr>,
                group_padding = \<lparr>pp_top = 5, pp_left = 3\<rparr>\<rparr>]\<rparr>"
  by (simp add: model_defs exampleConfig_def examplePadding_def skippedMissing_def
      plainPage_def bareLoosePage_def)

subsection \<open>Page indices in book mode\<close>

lemma groupIndices_append [simp]:
  "groupIndices (gs @ hs) = groupIndices gs @ groupIndices hs"
  by (simp add: groupIndices_def)

lemma groupIndices_facing [simp]:
  "groupIndices [getFacingPageGroup l r v] = [page_index l, page_index r]"
  by (simp add: groupIndices_def getFacingPageGroup_def Let_def)

lemma sorted_wrt_less_snoc:
  "sorted_wrt (<) (xs @ [x :: nat]) \<longleftrightarrow> sorted_wrt (<) xs \<and> (\<forall>y \<in> set xs. y < x)"
  by (auto simp add: sorted_wrt_append)

lemma bookScan_indices:
  assumes "bookScan m zoom vertical i ps groups leftPage = Inr (groups', leftPage')"
    and "drop i (pages m) = ps"
    and "i \<le> length (pages m)"
    and "sorted_wrt (<) (groupIndices groups @ pendingIndex leftPage)"
    and "\<forall>j \<in> set (groupIndices groups @ pendingIndex leftPage).
           j < i \<and> \<not> (paged m \<and> \<not> page_paged (pages m ! j))"
  shows "sorted_wrt (<) (groupIndices groups' @ pendingIndex leftPage')
         \<and> (\<forall>j \<in> set (groupIndices groups' @ pendingIndex leftPage').
               j < length (pages m) \<and> \<not> (paged m \<and> \<not> page_paged (pages m ! j)))"
  using assms
proof (induction ps arbitrary: i groups leftPage)
  case Nil
  then have "i = length (pages m)" by simp
  with Nil show ?case by simp
next
  case (Cons p ps)
  note dr = drop_eq_Cons [OF Cons.prems(2)]
  let ?ok = "\<lambda>k j. j < k \<and> \<not> (paged m \<and> \<not> page_paged (pages m ! j))"
  have older: "\<forall>j \<in> set (groupIndices groups @ pendingIndex leftPage). ?ok (Suc i) j"
    using Cons.prems(5) by (meson less_Suc_eq)
  have le: "Suc i \<le> length (pages m)" using dr(1) by simp
  note bound = Cons.prems(5)
  show ?case
  proof (cases "paged m \<and> \<not> page_paged p")
    case True
    with Cons.prems(1)
    have "bookScan m zoom vertical (Suc i) ps groups leftPage = Inr (groups', leftPage')" by simp
    from Cons.IH [OF this dr(3) le Cons.prems(4) older] show ?thesis .
  next
    case False
    then have here: "?ok (Suc i) i" using dr(2) by simp
    from Cons.prems(1) False obtain pageDims where
      gp: "getPageDimensions i m zoom (Some \<lparr>opt_round = Some False\<rparr>) = Inr pageDims"
      by (cases "getPageDimensions i m zoom (Some \<lparr>opt_round = Some False\<rparr>)") auto
    show ?thesis
    proof (cases "vertical \<and> i = 0")
      case True
      let ?g = "\<lparr>width = width pageDims * 2, height = height pageDims,
                 pageOffsets = [\<lparr>po_index = 0, po_top = 0, po_left = width pageDims\<rparr>]\<rparr>"
      have "groupIndices groups @ pendingIndex leftPage = []"
      proof (cases "groupIndices groups @ pendingIndex leftPage")
        case Nil
        then show ?thesis .
      next
        case (Cons a as)
        then have "a \<in> set (groupIndices groups @ pendingIndex leftPage)" by simp
        with bound have "a < i" by blast
        with True show ?thesis by simp
      qed
      then have empty: "groupIndices groups = []" "pendingIndex leftPage = []"
        by simp_all
      have run: "bookScan m zoom vertical (Suc i) ps (groups @ [?g]) leftPage = Inr (groups', leftPage')"
        using Cons.prems(1) False gp True by simp
      have gi: "groupIndices [?g] = [0]" by (simp add: groupIndices_def)
      have s: "sorted_wrt (<) (groupIndices (groups @ [?g]) @ pendingIndex leftPage)"
        by (simp add: empty gi)
      have a: "\<forall>j \<in> set (groupIndices (groups @ [?g]) @ pendingIndex leftPage). ?ok (Suc i) j"
        using here True by (simp add: empty gi)
      from Cons.IH [OF run dr(3) le s a] show ?thesis .
    next
      case nv: False
      show ?thesis
      proof (cases leftPage)
        case None
        let ?lp = "\<lparr>width = width pageDims, height = height pageDims, page_index = i\<rparr>"
        have run: "bookScan m zoom vertical (Suc i) ps groups (Some ?lp) = Inr (groups', leftPage')"
          using Cons.prems(1) False gp nv None by auto
        have s: "sorted_wrt (<) (groupIndices groups @ pendingIndex (Some ?lp))"
          using Cons.prems(4,5) None by (simp add: pendingIndex_def sorted_wrt_less_snoc)
        have a: "\<forall>j \<in> set (groupIndices groups @ pendingIndex (Some ?lp)). ?ok (Suc i) j"
          using older here None by (simp add: pendingIndex_def)
        from Cons.IH [OF run dr(3) le s a] show ?thesis .
      next
        case (Some lp)
        let ?rp = "\<lparr>width = width pageDims, height = height pageDims, page_index = i\<rparr>"
        let ?g = "getFacingPageGroup lp ?rp vertical"
        have run: "bookScan m zoom vertical (Suc i) ps (groups @ [?g]) None = Inr (groups', leftPage')"
          using Cons.prems(1) False gp nv Some by auto
        have s: "sorted_wrt (<) (groupIndices (groups @ [?g]) @ pendingIndex None)"
          using Cons.prems(4,5) Some
          by (simp add: pendingIndex_def sorted_wrt_append)
        have a: "\<forall>j \<in> set (groupIndices (groups @ [?g]) @ pendingIndex None). ?ok (Suc i) j"
          using older here Some by (simp add: pendingIndex_def)
        from Cons.IH [OF run dr(3) le s a] show ?thesis .
      qed
    qed
  qed
qed

lemma book_pagedFour_example:
  "getBookLayoutGroups pagedFour 0 True =
     Inr [\<lparr>width = 200, height = 200,
           pageOffsets = [\<lparr>po_index = 0, po_top = 0, po_left = 100\<rparr>]\<rparr>,
          \<lparr>width = 200, height = 200,
           pageOffsets =
             [\<lparr>po_index = 2, po_top = 0, po_left = 0\<rparr>,
              \<lparr>po_index = 3, po_top = 0, po_left = 100\<rparr>]\<rparr>]"
  by (simp add: getBookLayoutGroups_def getFacingPageGroup_def getPageDimensions_def Let_def
      pagedFour_def plainPage_def loosePage_def)

text \<open>
  C10. In the groups that \<^verbatim>\<open>getBookLayoutGroups\<close> returns, the page indices of the
  offsets, read group by group and offset by offset, are strictly increasing: so they are
  within a group of two pages and from one group to the next. Every index among them is an
  index of the manifest, and none is of a page that the scan skips (a page not paged in a
  paged manifest).
\<close>

theorem book_indices_increasing:
  assumes "getBookLayoutGroups m zoom vertical = Inr groups"
  shows "sorted_wrt (<) (groupIndices groups)
         \<and> (\<forall>j \<in> set (groupIndices groups).
               j < length (pages m) \<and> \<not> (paged m \<and> \<not> page_paged (pages m ! j)))"
proof -
  from assms obtain gs lp where
    run: "bookScan m zoom vertical 0 (pages m) [] None = Inr (gs, lp)"
    by (auto simp add: getBookLayoutGroups_def split: sum.splits)
  have inv: "sorted_wrt (<) (groupIndices gs @ pendingIndex lp)
         \<and> (\<forall>j \<in> set (groupIndices gs @ pendingIndex lp).
               j < length (pages m) \<and> \<not> (paged m \<and> \<not> page_paged (pages m ! j)))"
    by (rule bookScan_indices [OF run]) (simp_all add: groupIndices_def pendingIndex_def)
  have "groupIndices groups = groupIndices gs @ pendingIndex lp"
    using assms run
    by (auto simp add: getBookLayoutGroups_def groupIndices_def pendingIndex_def split: option.splits)
  with inv show ?thesis by simp
qed

theorem book_indices_increasing_witness:
  "groupIndices (projr (getBookLayoutGroups pagedFour 0 True)) = [0, 2, 3]
   \<and> sorted_wrt (<) (groupIndices (projr (getBookLayoutGroups pagedFour 0 True)))
   \<and> paged pagedFour \<and> \<not> page_paged (pages pagedFour ! 1)
   \<and> 1 \<notin> set (groupIndices (projr (getBookLayoutGroups pagedFour 0 True)))"
  using book_indices_increasing [OF book_pagedFour_example]
  unfolding book_pagedFour_example
  by (simp add: groupIndices_def pagedFour_def plainPage_def loosePage_def)

subsection \<open>Pairs in book mode\<close>

lemma bookScan_pairs:
  assumes "\<not> paged m"
    and "even (length ps)"
    and "drop i (pages m) = ps"
    and "\<forall>p \<in> set ps. d p zoom \<noteq> None"
  shows "\<exists>new. bookScan m zoom False i ps groups None = Inr (groups @ new, None)
           \<and> length new = length ps div 2
           \<and> (\<forall>g \<in> set new. \<exists>a b. pageOffsets g = [a, b] \<and> po_index b = Suc (po_index a))"
  using assms(2-)
proof (induction ps arbitrary: i groups rule: induct_list012)
  case 1
  then show ?case by simp
next
  case (2 p)
  then show ?case by simp
next
  case (3 p q ps)
  note dp = drop_eq_Cons [OF "3.prems"(2)]
  note dq = drop_eq_Cons [OF dp(3)]
  from "3.prems"(3) obtain pd qd where pd: "d p zoom = Some pd" and qd: "d q zoom = Some qd"
    by auto
  let ?l = "\<lparr>width = of_int \<lfloor>w pd\<rfloor>, height = of_int \<lfloor>h pd\<rfloor>, page_index = i\<rparr>"
  let ?r = "\<lparr>width = of_int \<lfloor>w qd\<rfloor>, height = of_int \<lfloor>h qd\<rfloor>, page_index = Suc i\<rparr>"
  let ?g = "getFacingPageGroup ?l ?r False"
  have gp: "getPageDimensions i m zoom (Some \<lparr>opt_round = Some False\<rparr>) =
      Inr \<lparr>width = of_int \<lfloor>w pd\<rfloor>, height = of_int \<lfloor>h pd\<rfloor>\<rparr>"
    using getPageDimensions_in_range [OF dp(1), of zoom] dp(2) pd by simp
  have gq: "getPageDimensions (Suc i) m zoom (Some \<lparr>opt_round = Some False\<rparr>) =
      Inr \<lparr>width = of_int \<lfloor>w qd\<rfloor>, height = of_int \<lfloor>h qd\<rfloor>\<rparr>"
    using getPageDimensions_in_range [OF dq(1), of zoom] dq(2) qd by simp
  have step: "bookScan m zoom False i (p # q # ps) groups None =
      bookScan m zoom False (Suc (Suc i)) ps (groups @ [?g]) None"
    using assms(1) by (simp add: gp gq)
  have ev: "even (length ps)" using "3.prems"(1) by simp
  have all: "\<forall>p \<in> set ps. d p zoom \<noteq> None" using "3.prems"(3) by simp
  from "3.IH"(1) [OF ev dq(3) all, of "groups @ [?g]"] obtain new where
    new: "bookScan m zoom False (Suc (Suc i)) ps (groups @ [?g]) None = Inr ((groups @ [?g]) @ new, None)"
      "length new = length ps div 2"
      "\<forall>g \<in> set new. \<exists>a b. pageOffsets g = [a, b] \<and> po_index b = Suc (po_index a)"
    by blast
  have pair: "\<exists>a b. pageOffsets ?g = [a, b] \<and> po_index b = Suc (po_index a)"
    by (simp add: getFacingPageGroup_def Let_def)
  have "bookScan m zoom False i (p # q # ps) groups None = Inr (groups @ (?g # new), None)"
    using step new(1) by simp
  moreover have "length (?g # new) = length (p # q # ps) div 2"
    using new(2) by simp
  moreover have "\<forall>g \<in> set (?g # new). \<exists>a b. pageOffsets g = [a, b] \<and> po_index b = Suc (po_index a)"
    using new(3) pair by simp
  ultimately show ?case by blast
qed

text \<open>
  C3, as the code has it. Horizontally oriented, for a manifest that is not paged, with an
  even number of pages that all have the zoom level, \<^verbatim>\<open>getBookLayoutGroups\<close> returns
  half as many groups as there are pages, each with exactly two offsets of consecutive
  page indices.
\<close>

theorem book_even_pairs:
  assumes "\<not> paged m"
    and "even (length (pages m))"
    and "\<forall>p \<in> set (pages m). d p zoom \<noteq> None"
  shows "\<exists>groups. getBookLayoutGroups m zoom False = Inr groups
           \<and> length groups = length (pages m) div 2
           \<and> (\<forall>g \<in> set groups.
                 \<exists>a b. pageOffsets g = [a, b] \<and> po_index b = Suc (po_index a))"
proof -
  have "drop 0 (pages m) = pages m" by simp
  from bookScan_pairs [OF assms(1,2) this assms(3), of "[]"] obtain new where
    "bookScan m zoom False 0 (pages m) [] None = Inr (new, None)"
    "length new = length (pages m) div 2"
    "\<forall>g \<in> set new. \<exists>a b. pageOffsets g = [a, b] \<and> po_index b = Suc (po_index a)"
    by auto
  then show ?thesis by (simp add: getBookLayoutGroups_def)
qed

theorem book_even_pairs_witness:
  "\<not> paged twoPages \<and> even (length (pages twoPages))
   \<and> d (pages twoPages ! 0) 0 \<noteq> None \<and> d (pages twoPages ! 1) 0 \<noteq> None
   \<and> getBookLayoutGroups twoPages 0 False =
       Inr [\<lparr>width = 200, height = 200,
             pageOffsets =
               [\<lparr>po_index = 0, po_top = 0, po_left = 0\<rparr>,
                \<lparr>po_index = 1, po_top = 0, po_left = 100\<rparr>]\<rparr>]"
  using book_even_pairs [of twoPages 0]
  by (simp add: getBookLayoutGroups_def getFacingPageGroup_def getPageDimensions_def Let_def
      twoPages_def plainPage_def)

text \<open>
  C3 as stated fails when vertically oriented: the first page forms a group of its own, so
  two pages give two groups of one offset each.
\<close>

theorem book_vertical_pairs_counterexample:
  "\<not> paged twoPages \<and> even (length (pages twoPages))
   \<and> getBookLayoutGroups twoPages 0 True =
       Inr [\<lparr>width = 200, height = 200,
             pageOffsets = [\<lparr>po_index = 0, po_top = 0, po_left = 100\<rparr>]\<rparr>,
            \<lparr>width = 200, height = 200,
             pageOffsets = [\<lparr>po_index = 1, po_top = 0, po_left = 0\<rparr>]\<rparr>]
   \<and> length (projr (getBookLayoutGroups twoPages 0 True)) \<noteq> length (pages twoPages) div 2
   \<and> length (pageOffsets (hd (projr (getBookLayoutGroups twoPages 0 True)))) \<noteq> 2"
  by (simp add: getBookLayoutGroups_def getFacingPageGroup_def getPageDimensions_def Let_def
      twoPages_def plainPage_def)

subsection \<open>The example of three pages\<close>

text \<open>
  C4, as the code has it. For three pages of 100 by 200 at zoom level 0, in book mode and
  vertically oriented, with any padding: page 0 stands alone in a group of width 200 and
  height 200 at left offset 100; pages 1 and 2 share one group of width 200 and height
  200 at left offsets 0 and 100; the width of the document is 200 plus the left and right
  document padding; and there are two page groups.
\<close>

theorem three_page_book_layout:
  "getDocumentLayout (threePageBook pad) =
     Inr \<lparr>dimensions =
            \<lparr>width = dp_left (document pad) + dp_right (document pad) + 200,
             height = 3 * pp_top (page pad) + 400\<rparr>,
          pageGroups =
            [\<lparr>group_index = 0,
              group_layout =
                \<lparr>width = 200, height = 200,
                 pageOffsets = [\<lparr>po_index = 0, po_top = 0, po_left = 100\<rparr>]\<rparr>,
              group_region =
                \<lparr>region_top = 0,
                 region_bottom = pp_top (page pad) + 200,
                 region_left = (dp_left (document pad) + dp_right (document pad)) / 2,
                 region_right =
                   (dp_left (document pad) + dp_right (document pad)) / 2 + pp_left (page pad) + 200\<rparr>,
              group_padding = page pad\<rparr>,
             \<lparr>group_index = 1,
              group_layout =
                \<lparr>width = 200, height = 200,
                 pageOffsets =
                   [\<lparr>po_index = 1, po_top = 0, po_left = 0\<rparr>,
                    \<lparr>po_index = 2, po_top = 0, po_left = 100\<rparr>]\<rparr>,
              group_region =
                \<lparr>region_top = pp_top (page pad) + 200,
                 region_bottom = 2 * pp_top (page pad) + 400,
                 region_left = (dp_left (document pad) + dp_right (document pad)) / 2,
                 region_right =
                   (dp_left (document pad) + dp_right (document pad)) / 2 + pp_left (page pad) + 200\<rparr>,
              group_padding = page pad\<rparr>]\<rparr>"
  by (simp add: model_defs threePageBook_def threePages_def plainPage_def)

theorem three_page_book_layout_witness:
  "length (pageGroups (projr (getDocumentLayout (threePageBook examplePadding)))) = 2
   \<and> dimensions (projr (getDocumentLayout (threePageBook examplePadding))) =
       \<lparr>width = 228, height = 415\<rparr>"
  using three_page_book_layout [of examplePadding]
  by (simp add: examplePadding_def)

text \<open>C4 as stated fails: the result has two page groups, not three.\<close>

theorem three_page_book_groups_counterexample:
  "\<not> isl (getDocumentLayout (threePageBook examplePadding))
   \<and> length (pageGroups (projr (getDocumentLayout (threePageBook examplePadding)))) = 2
   \<and> length (pageGroups (projr (getDocumentLayout (threePageBook examplePadding)))) \<noteq> 3"
  by (simp add: model_defs threePageBook_def threePages_def plainPage_def examplePadding_def)

end
